theory Spec2Isabelle
  imports
    Complex_Main
    "HOL-Library.Char_ord"
    "HOL-Library.List_Lexorder"
    "HOL-Library.Multiset"
    "HOL-Library.Sublist"
begin

section \<open>The crime dashboard callback of \<^verbatim>\<open>crime_cali.py\<close>\<close>

text \<open>
  The program loads one table \<^verbatim>\<open>df\<close> and registers one callback, \<^verbatim>\<open>update(city)\<close>, that
  selects the rows of a city and derives nine outputs from them: seven figures, the text
  of the total and the text of the most frequent crime.  The table is a list of rows; a
  cell that pandas holds as NaN is \<open>None\<close>.  Each figure is represented by the rows of the
  data frame handed to the plotting call (the columns it names), since the drawing itself
  computes nothing.  The pandas operations the callback uses are written out as list
  functions that follow the library: a hash table of counts kept in order of first
  appearance, a sort of the group keys, and a sort by one column.

  Two things the library decides are kept visible.  The default sort of pandas is not
  stable, so the order it gives to rows of equal count is not fixed by the program: the
  sort by count is a parameter \<open>srt\<close> of the model, of which only \<open>sorts_by_count\<close> is
  known.  And a table loaded without any row keeps its \<^verbatim>\<open>date_time\<close> column unparsed, so
  the \<^verbatim>\<open>.dt\<close> accessor of line 101 raises \<^verbatim>\<open>AttributeError\<close> there.
\<close>

subsection \<open>Rows of the table\<close>

datatype month = Jan | Feb | Mar | Apr | May | Jun | Jul | Aug | Sep | Oct | Nov | Dec

record timestamp =
  ts_year :: int
  ts_month :: month
  ts_day :: nat
  ts_hour :: nat
  ts_minute :: nat
  ts_second :: nat

record crime_record =
  city :: string
  case_closed :: "string option"
  race_ethnicity :: "string option"
  gender :: "string option"
  date_time :: timestamp
  weapon :: "string option"
  crime_type :: "string option"
  latitude :: "real option"
  longitude :: "real option"

type_synonym dataframe = "crime_record list"

subsection \<open>The pandas operations used by the callback\<close>

datatype error = ValueError | AttributeError

text \<open>\<^verbatim>\<open>Series.unique()\<close>: the distinct values in order of first appearance.\<close>

definition unique :: "'a list \<Rightarrow> 'a list" where
  "unique xs = rev (remdups (rev xs))"

text \<open>\<^verbatim>\<open>Series.dropna()\<close> and \<^verbatim>\<open>Series.notna().any()\<close>.\<close>

definition dropna :: "'a option list \<Rightarrow> 'a option list" where
  "dropna col = filter (\<lambda>v. v \<noteq> None) col"

definition notna_any :: "'a option list \<Rightarrow> bool" where
  "notna_any col = list_ex (\<lambda>v. v \<noteq> None) col"

text \<open>The values of the cells that are not NaN, in row order.\<close>

fun notna_values :: "'a option list \<Rightarrow> 'a list" where
  "notna_values [] = []"
| "notna_values (None # vs) = notna_values vs"
| "notna_values (Some v # vs) = v # notna_values vs"

text \<open>\<^verbatim>\<open>Series.astype(str)\<close> on a column of strings: NaN becomes the text \<^verbatim>\<open>nan\<close>.\<close>

fun astype_str :: "string option \<Rightarrow> string option" where
  "astype_str None = Some ''nan''"
| "astype_str (Some s) = Some s"

text \<open>
  The counting hash table: one pass over the values; a value seen before has its count
  incremented in place, a new value is appended with count 1.
\<close>

fun bump :: "'a \<Rightarrow> ('a \<times> nat) list \<Rightarrow> ('a \<times> nat) list" where
  "bump k [] = [(k, 1)]"
| "bump k ((k', c) # t) = (if k = k' then (k', Suc c) # t else (k', c) # bump k t)"

definition count_table :: "'a list \<Rightarrow> ('a \<times> nat) list" where
  "count_table xs = fold bump xs []"

text \<open>
  The default sort of pandas (\<^verbatim>\<open>kind="quicksort"\<close>) applied to rows by their count: it
  returns the same rows in ascending order of the count.  It is not stable, and the order
  of rows of equal count is left open: every function with this property may stand for it.
\<close>

definition sorts_by_count :: "(('a \<times> nat) list \<Rightarrow> ('a \<times> nat) list) \<Rightarrow> bool" where
  "sorts_by_count srt \<longleftrightarrow>
     (\<forall>rows. mset (srt rows) = mset rows \<and> sorted (map snd (srt rows)))"

text \<open>
  Two such sorts: the insertion sort of the library, which is stable, and a sort that
  returns rows of equal count in the reverse of their order.
\<close>

definition reversing_sort :: "('a \<times> nat) list \<Rightarrow> ('a \<times> nat) list" where
  "reversing_sort rows = sort_key snd (rev rows)"

text \<open>
  \<^verbatim>\<open>Series.value_counts()\<close> with its defaults (\<^verbatim>\<open>sort=True, ascending=False, dropna=True\<close>):
  the counts of the non-NaN values, sorted by descending count.  pandas sorts in
  descending order by reversing the rows, sorting ascending with the default sort and
  reversing again.
\<close>

definition value_counts ::
    "(('a \<times> nat) list \<Rightarrow> ('a \<times> nat) list) \<Rightarrow> 'a option list \<Rightarrow> ('a \<times> nat) list" where
  "value_counts srt col = rev (srt (rev (count_table (notna_values col))))"

text \<open>
  \<^verbatim>\<open>groupby(key).size().reset_index(name=...)\<close> with the defaults
  (\<^verbatim>\<open>sort=True, dropna=True\<close>): one row per non-NaN key, sorted by key, with the number
  of rows of the group.  The keys are distinct, so the result does not depend on the
  sort that orders them.
\<close>

definition groupby_size :: "('k::linorder) option list \<Rightarrow> ('k \<times> nat) list" where
  "groupby_size col = sort_key fst (count_table (notna_values col))"

text \<open>\<^verbatim>\<open>Series.idxmax()\<close>: the label of the first row holding the maximum; it raises
  \<^verbatim>\<open>ValueError\<close> on an empty series.  \<^verbatim>\<open>Series.max()\<close> is NaN on an empty series.\<close>

fun first_max :: "'a \<times> nat \<Rightarrow> ('a \<times> nat) list \<Rightarrow> 'a \<times> nat" where
  "first_max b [] = b"
| "first_max b (r # rs) = first_max (if snd b < snd r then r else b) rs"

fun idxmax :: "('a \<times> nat) list \<Rightarrow> error + 'a" where
  "idxmax [] = Inl ValueError"
| "idxmax (r # rs) = Inr (fst (first_max r rs))"

fun series_max :: "('a \<times> nat) list \<Rightarrow> nat option" where
  "series_max [] = None"
| "series_max (r # rs) = Some (fold max (map snd rs) (snd r))"

text \<open>
  The accessor \<^verbatim>\<open>dff.date_time.dt\<close>.  \<^verbatim>\<open>read_csv\<close> parses the dates of a table that has
  rows; on a table without rows the column stays unparsed and the accessor raises
  \<^verbatim>\<open>AttributeError\<close>, for every selection.  A selection without rows from a table with rows
  keeps the parsed column, and the accessor gives no timestamps.
\<close>

definition dt_accessor :: "dataframe \<Rightarrow> dataframe \<Rightarrow> error + timestamp list" where
  "dt_accessor df dff = (if df = [] then Inl AttributeError else Inr (map date_time dff))"

subsection \<open>Text of numbers\<close>

text \<open>\<^verbatim>\<open>str(n)\<close> of a natural number, and the format \<^verbatim>\<open>{n:,}\<close> that separates groups of
  three digits, counted from the right, by commas.\<close>

definition digit_char :: "nat \<Rightarrow> char" where
  "digit_char d = ''0123456789'' ! d"

function str_nat :: "nat \<Rightarrow> string" where
  "str_nat n = (if n < 10 then [digit_char n] else str_nat (n div 10) @ [digit_char (n mod 10)])"
  by pat_completeness auto
termination
  by (relation "measure id") auto

declare str_nat.simps [simp del]

fun group3 :: "string \<Rightarrow> string" where
  "group3 (a # b # c # d # ds) = a # b # c # CHR '','' # group3 (d # ds)"
| "group3 ds = ds"

definition fmt_thousands :: "nat \<Rightarrow> string" where
  "fmt_thousands n = rev (group3 (rev (str_nat n)))"

fun fmt_max :: "nat option \<Rightarrow> string" where
  "fmt_max None = ''nan''"
| "fmt_max (Some c) = str_nat c"

subsection \<open>Months\<close>

text \<open>\<^verbatim>\<open>strftime("%b")\<close>: the abbreviated month name.\<close>

fun strftime_b :: "timestamp \<Rightarrow> string" where
  "strftime_b t =
     (case ts_month t of
        Jan \<Rightarrow> ''Jan'' | Feb \<Rightarrow> ''Feb'' | Mar \<Rightarrow> ''Mar'' | Apr \<Rightarrow> ''Apr''
      | May \<Rightarrow> ''May'' | Jun \<Rightarrow> ''Jun'' | Jul \<Rightarrow> ''Jul'' | Aug \<Rightarrow> ''Aug''
      | Sep \<Rightarrow> ''Sep'' | Oct \<Rightarrow> ''Oct'' | Nov \<Rightarrow> ''Nov'' | Dec \<Rightarrow> ''Dec'')"

declare strftime_b.simps [simp del]

definition month_order :: "string list" where
  "month_order = [''Jan'', ''Feb'', ''Mar'', ''Apr'', ''May'', ''Jun'',
                  ''Jul'', ''Aug'', ''Sep'', ''Oct'', ''Nov'', ''Dec'']"

text \<open>
  \<^verbatim>\<open>pd.Categorical(values, categories, ordered=True)\<close>: a value outside the categories
  becomes NaN.  Sorting by the categorical column orders the rows by the position of
  the value among the categories, NaN last.
\<close>

fun index_of :: "'a \<Rightarrow> 'a list \<Rightarrow> nat" where
  "index_of x [] = 0"
| "index_of x (y # ys) = (if x = y then 0 else Suc (index_of x ys))"

definition categorical :: "'a list \<Rightarrow> 'a \<Rightarrow> 'a option" where
  "categorical cats v = (if v \<in> set cats then Some v else None)"

fun cat_code :: "'a list \<Rightarrow> 'a option \<Rightarrow> nat" where
  "cat_code cats None = length cats"
| "cat_code cats (Some v) = index_of v cats"

subsection \<open>The callback\<close>

text \<open>The list of the dropdown: the sorted cities of the table after the entry for the
  whole state.\<close>

definition cities :: "dataframe \<Rightarrow> string list" where
  "cities df = ''All California'' # sort (unique (map city df))"

text \<open>Line 84: the rows the callback works on.\<close>

definition dff_of :: "dataframe \<Rightarrow> string \<Rightarrow> dataframe" where
  "dff_of df c = (if c = ''All California'' then df else filter (\<lambda>r. city r = c) df)"

text \<open>Lines 86 to 99: the three tables of value counts.\<close>

definition case_df ::
    "((string \<times> nat) list \<Rightarrow> (string \<times> nat) list) \<Rightarrow> dataframe \<Rightarrow> (string \<times> nat) list" where
  "case_df srt dff = value_counts srt (map case_closed dff)"

definition race_df ::
    "((string \<times> nat) list \<Rightarrow> (string \<times> nat) list) \<Rightarrow> dataframe \<Rightarrow> (string \<times> nat) list" where
  "race_df srt dff = value_counts srt (map race_ethnicity dff)"

definition gender_df ::
    "((string \<times> nat) list \<Rightarrow> (string \<times> nat) list) \<Rightarrow> dataframe \<Rightarrow> (string \<times> nat) list" where
  "gender_df srt dff = value_counts srt (map gender dff)"

text \<open>Line 101: the hours come through the \<^verbatim>\<open>.dt\<close> accessor and are grouped.\<close>

definition hour_counts :: "timestamp list \<Rightarrow> (nat \<times> nat) list" where
  "hour_counts ts = groupby_size (map (\<lambda>t. Some (ts_hour t)) ts)"

definition hourly_df :: "dataframe \<Rightarrow> dataframe \<Rightarrow> error + (nat \<times> nat) list" where
  "hourly_df df dff =
     (case dt_accessor df dff of Inl e \<Rightarrow> Inl e | Inr ts \<Rightarrow> Inr (hour_counts ts))"

text \<open>Lines 104 to 106: the figure receives \<^verbatim>\<open>weapon_df.sort_values("usage_count")\<close>,
  the rows sorted by the default sort in ascending order of the count.\<close>

definition weapon_df :: "dataframe \<Rightarrow> (string \<times> nat) list" where
  "weapon_df dff = groupby_size (map weapon dff)"

definition weapon_sorted ::
    "((string \<times> nat) list \<Rightarrow> (string \<times> nat) list) \<Rightarrow> dataframe \<Rightarrow> (string \<times> nat) list" where
  "weapon_sorted srt dff = srt (weapon_df dff)"

text \<open>Lines 108 to 113: the month labels come through the \<^verbatim>\<open>.dt\<close> accessor, are grouped
  and turned into an ordered categorical, and the figure receives the rows sorted by it.
  The months of the rows are distinct, so that sort has one result.\<close>

definition month_counts :: "timestamp list \<Rightarrow> (string option \<times> nat) list" where
  "month_counts ts =
     map (\<lambda>(m, n). (categorical month_order m, n))
       (groupby_size (map (\<lambda>t. Some (strftime_b t)) ts))"

definition month_df :: "dataframe \<Rightarrow> dataframe \<Rightarrow> error + (string option \<times> nat) list" where
  "month_df df dff =
     (case dt_accessor df dff of Inl e \<Rightarrow> Inl e | Inr ts \<Rightarrow> Inr (month_counts ts))"

definition month_sorted :: "(string option \<times> nat) list \<Rightarrow> (string option \<times> nat) list" where
  "month_sorted rows = sort_key (\<lambda>row. cat_code month_order (fst row)) rows"

text \<open>Lines 116 to 126: the map receives the rows themselves; it reads the coordinates,
  the city for the colour and four columns for the hover text.\<close>

record map_point =
  lat :: "real option"
  lon :: "real option"
  color :: string
  hover_crime_type :: "string option"
  hover_weapon :: "string option"
  hover_gender :: "string option"
  hover_case_closed :: "string option"

definition map_row :: "crime_record \<Rightarrow> map_point" where
  "map_row r =
     \<lparr>lat = latitude r, lon = longitude r, color = city r,
      hover_crime_type = crime_type r, hover_weapon = weapon r,
      hover_gender = gender r, hover_case_closed = case_closed r\<rparr>"

text \<open>Lines 130 to 135.  The column \<^verbatim>\<open>crime_type\<close> is a column of the table, so the test
  for its presence holds.\<close>

definition vc_of ::
    "((string \<times> nat) list \<Rightarrow> (string \<times> nat) list) \<Rightarrow> dataframe \<Rightarrow> (string \<times> nat) list" where
  "vc_of srt dff = value_counts srt (map astype_str (dropna (map crime_type dff)))"

definition freq_of ::
    "((string \<times> nat) list \<Rightarrow> (string \<times> nat) list) \<Rightarrow> dataframe \<Rightarrow> error + string" where
  "freq_of srt dff =
     (if dff \<noteq> [] \<and> notna_any (map crime_type dff) then
        (case idxmax (vc_of srt dff) of
           Inl e \<Rightarrow> Inl e
         | Inr l \<Rightarrow> Inr (l @ '' ('' @ fmt_max (series_max (vc_of srt dff)) @ '' crimes)''))
      else Inr ''N/A'')"

record outputs =
  fig_case :: "(string \<times> nat) list"
  fig_race :: "(string \<times> nat) list"
  fig_gender :: "(string \<times> nat) list"
  fig_hour :: "(nat \<times> nat) list"
  fig_weap :: "(string \<times> nat) list"
  fig_month :: "(string option \<times> nat) list"
  fig_map :: "map_point list"
  total_crimes :: string
  freq_crime :: string

text \<open>The callback, with the table \<^verbatim>\<open>df\<close> it reads and the sort of the library as
  arguments.  The statements run in the order of the source, and the first that raises
  ends the call.\<close>

definition update ::
    "((string \<times> nat) list \<Rightarrow> (string \<times> nat) list) \<Rightarrow> dataframe \<Rightarrow> string \<Rightarrow> error + outputs" where
  "update srt df c =
     (let dff = dff_of df c in
      case hourly_df df dff of
        Inl e \<Rightarrow> Inl e
      | Inr hourly \<Rightarrow>
     (case month_df df dff of
        Inl e \<Rightarrow> Inl e
      | Inr monthly \<Rightarrow>
     (case freq_of srt dff of
        Inl e \<Rightarrow> Inl e
      | Inr freq \<Rightarrow>
          Inr \<lparr>fig_case = case_df srt dff, fig_race = race_df srt dff,
               fig_gender = gender_df srt dff, fig_hour = hourly,
               fig_weap = weapon_sorted srt dff, fig_month = month_sorted monthly,
               fig_map = map map_row dff,
               total_crimes = fmt_thousands (length dff), freq_crime = freq\<rparr>)))"

subsection \<open>Frequency tables\<close>

text \<open>
  What it means for \<open>tbl\<close> to be the frequency table of a column: one row per value of a
  non-NaN cell, holding the number of cells with that value, the rows in order of
  descending count.  The order of rows of equal count is not part of it.
\<close>

definition frequency_table :: "'a option list \<Rightarrow> ('a \<times> nat) list \<Rightarrow> bool" where
  "frequency_table col tbl \<longleftrightarrow>
     distinct (map fst tbl)
   \<and> set (map fst tbl) = set (notna_values col)
   \<and> (\<forall>row \<in> set tbl. snd row = count_list col (Some (fst row)) \<and> 0 < snd row)
   \<and> sorted_wrt (\<lambda>a b. snd b \<le> snd a) tbl"

subsection \<open>A small table\<close>

text \<open>Five rows, three of Oakland and two of Fresno, used to run the callback.\<close>

definition row1 :: crime_record where
  "row1 = \<lparr>city = ''Oakland'', case_closed = Some ''Yes'', race_ethnicity = Some ''White'',
     gender = Some ''Male'',
     date_time = \<lparr>ts_year = 2023, ts_month = Mar, ts_day = 4, ts_hour = 13, ts_minute = 5,
       ts_second = 0\<rparr>,
     weapon = Some ''Knife'', crime_type = Some ''Theft'',
     latitude = Some 37.8, longitude = Some (-122.27)\<rparr>"

definition row2 :: crime_record where
  "row2 = \<lparr>city = ''Fresno'', case_closed = Some ''No'', race_ethnicity = None,
     gender = Some ''Female'',
     date_time = \<lparr>ts_year = 2023, ts_month = Jan, ts_day = 17, ts_hour = 2, ts_minute = 40,
       ts_second = 0\<rparr>,
     weapon = None, crime_type = None, latitude = None, longitude = None\<rparr>"

definition row3 :: crime_record where
  "row3 = \<lparr>city = ''Oakland'', case_closed = Some ''No'', race_ethnicity = Some ''Asian'',
     gender = Some ''Female'',
     date_time = \<lparr>ts_year = 2022, ts_month = Dec, ts_day = 30, ts_hour = 13, ts_minute = 0,
       ts_second = 0\<rparr>,
     weapon = Some ''Handgun'', crime_type = Some ''Assault'',
     latitude = Some 37.81, longitude = None\<rparr>"

definition row4 :: crime_record where
  "row4 = \<lparr>city = ''Oakland'', case_closed = Some ''No'', race_ethnicity = Some ''White'',
     gender = None,
     date_time = \<lparr>ts_year = 2023, ts_month = Mar, ts_day = 9, ts_hour = 22, ts_minute = 15,
       ts_second = 30\<rparr>,
     weapon = Some ''Knife'', crime_type = Some ''Theft'',
     latitude = Some 37.79, longitude = Some (-122.2)\<rparr>"

definition row5 :: crime_record where
  "row5 = \<lparr>city = ''Fresno'', case_closed = None, race_ethnicity = Some ''Black'',
     gender = Some ''Male'',
     date_time = \<lparr>ts_year = 2023, ts_month = Aug, ts_day = 1, ts_hour = 2, ts_minute = 59,
       ts_second = 59\<rparr>,
     weapon = Some ''Blunt Object'', crime_type = None,
     latitude = Some 36.74, longitude = Some (-119.78)\<rparr>"

definition sample_df :: dataframe where
  "sample_df = [row1, row2, row3, row4, row5]"

section \<open>Properties of the library operations\<close>

subsection \<open>The count table\<close>

lemma unique_snoc: "unique (xs @ [x]) = (if x \<in> set xs then unique xs else unique xs @ [x])"
  by (simp add: unique_def)

lemma set_unique: "set (unique xs) = set xs"
  by (simp add: unique_def)

lemma distinct_unique: "distinct (unique xs)"
  by (simp add: unique_def)

lemma bump_tabulate:
  "distinct ks \<Longrightarrow>
   bump x (map (\<lambda>k. (k, f k)) ks) =
     (if x \<in> set ks then map (\<lambda>k. (k, if k = x then Suc (f k) else f k)) ks
      else map (\<lambda>k. (k, f k)) ks @ [(x, 1)])"
  by (induction ks) auto

lemma count_table_snoc: "count_table (xs @ [x]) = bump x (count_table xs)"
  by (simp add: count_table_def)

lemma count_table_eq: "count_table xs = map (\<lambda>k. (k, count_list xs k)) (unique xs)"
proof (induction xs rule: rev_induct)
  case Nil
  show ?case by (simp add: count_table_def unique_def)
next
  case (snoc x xs)
  have "count_table (xs @ [x]) = bump x (map (\<lambda>k. (k, count_list xs k)) (unique xs))"
    by (simp add: count_table_snoc snoc.IH)
  also have "\<dots> = map (\<lambda>k. (k, count_list (xs @ [x]) k)) (unique (xs @ [x]))"
    by (auto simp: bump_tabulate distinct_unique set_unique unique_snoc count_list_0_iff)
  finally show ?case .
qed

lemma sum_bump: "sum_list (map snd (bump x t)) = Suc (sum_list (map snd t))"
  by (induction t) auto

lemma sum_count_table: "sum_list (map snd (count_table xs)) = length xs"
  by (induction xs rule: rev_induct) (simp_all add: count_table_snoc sum_bump count_table_def)

lemma length_notna_values:
  "length (notna_values col) + length (filter (\<lambda>v. v = None) col) = length col"
  by (induction col rule: notna_values.induct) auto

lemma set_notna_values: "set (notna_values col) = {v. Some v \<in> set col}"
  by (induction col rule: notna_values.induct) auto

lemma count_notna_values: "count_list (notna_values col) v = count_list col (Some v)"
  by (induction col rule: notna_values.induct) auto

lemma keys_count_table: "map fst (count_table xs) = unique xs"
  by (simp add: count_table_eq comp_def)

lemma set_count_table:
  "set (count_table (notna_values col))
     = {(v, n). Some v \<in> set col \<and> n = count_list col (Some v)}"
  by (auto simp: count_table_eq set_unique set_notna_values count_notna_values)

subsection \<open>Sorts by count\<close>

lemma mset_srt: "sorts_by_count srt \<Longrightarrow> mset (srt rows) = mset rows"
  by (simp add: sorts_by_count_def)

lemma sorted_srt: "sorts_by_count srt \<Longrightarrow> sorted (map snd (srt rows))"
  by (simp add: sorts_by_count_def)

lemma set_srt: "sorts_by_count srt \<Longrightarrow> set (srt rows) = set rows"
  using mset_srt [of srt rows] by (metis set_mset_mset)

lemma srt_Nil: "sorts_by_count srt \<Longrightarrow> srt [] = []"
  using mset_srt [of srt "[]"] by simp

lemma sum_mset_eq:
  "mset xs = mset ys \<Longrightarrow> sum_list (map g xs) = sum_list (map (g :: 'a \<Rightarrow> nat) ys)"
proof -
  assume "mset xs = mset ys"
  then have "mset (map g xs) = mset (map g ys)"
    by simp
  then show ?thesis by (metis sum_mset_sum_list)
qed

lemma sum_srt:
  "sorts_by_count srt \<Longrightarrow> sum_list (map snd (srt rows)) = sum_list (map snd rows)"
  using mset_srt [of srt rows] by (rule sum_mset_eq)

lemma sum_list_sort_key: "sum_list (map g (sort_key f t)) = sum_list (map (g :: 'a \<Rightarrow> nat) t)"
  by (rule sum_mset_eq) simp

lemma sorts_by_count_sort_key: "sorts_by_count (sort_key snd)"
  by (simp add: sorts_by_count_def)

lemma sorts_by_count_reversing_sort: "sorts_by_count reversing_sort"
  by (simp add: sorts_by_count_def reversing_sort_def)

subsection \<open>The tables of value counts\<close>

lemma mset_value_counts:
  "sorts_by_count srt \<Longrightarrow> mset (value_counts srt col) = mset (count_table (notna_values col))"
  by (simp add: value_counts_def mset_srt)

lemma set_value_counts:
  assumes "sorts_by_count srt"
  shows "set (value_counts srt col)
           = {(v, n). Some v \<in> set col \<and> n = count_list col (Some v)}"
proof -
  have "set (value_counts srt col) = set (count_table (notna_values col))"
    using mset_value_counts [OF assms, of col] by (metis set_mset_mset)
  then show ?thesis by (simp only: set_count_table)
qed


lemma sorted_value_counts:
  "sorts_by_count srt \<Longrightarrow> sorted (rev (map snd (value_counts srt col)))"
  by (simp add: value_counts_def rev_map [symmetric] sorted_srt)

lemma distinct_keys_value_counts:
  assumes "sorts_by_count srt"
  shows "distinct (map fst (value_counts srt col))"
proof -
  have "mset (map fst (value_counts srt col)) = mset (map fst (count_table (notna_values col)))"
    using mset_value_counts [OF assms, of col] by simp
  then have "mset (map fst (value_counts srt col)) = mset (unique (notna_values col))"
    by (simp only: keys_count_table)
  then show ?thesis
    by (metis distinct_unique mset_eq_imp_distinct_iff)
qed

lemma keys_value_counts:
  assumes "sorts_by_count srt"
  shows "set (map fst (value_counts srt col)) = set (notna_values col)"
proof -
  have "fst ` set (value_counts srt col) = {v. Some v \<in> set col}"
    unfolding set_value_counts [OF assms] by (auto simp: image_iff)
  then show ?thesis by (simp add: set_notna_values)
qed

lemma descending_value_counts:
  assumes "sorts_by_count srt"
  shows "sorted_wrt (\<lambda>a b. snd b \<le> snd a) (value_counts srt col)"
proof -
  have "sorted_wrt (\<lambda>x y. y \<le> x) (map snd (value_counts srt col))"
    using sorted_value_counts [OF assms, of col] by (simp only: sorted_wrt_rev)
  then show ?thesis by (simp add: sorted_wrt_map)
qed

lemma frequency_table_value_counts:
  assumes "sorts_by_count srt"
  shows "frequency_table col (value_counts srt col)"
  unfolding frequency_table_def
proof (intro conjI ballI)
  show "distinct (map fst (value_counts srt col))"
    using assms by (rule distinct_keys_value_counts)
  show "set (map fst (value_counts srt col)) = set (notna_values col)"
    using assms by (rule keys_value_counts)
  show "sorted_wrt (\<lambda>a b. snd b \<le> snd a) (value_counts srt col)"
    using assms by (rule descending_value_counts)
next
  fix row assume "row \<in> set (value_counts srt col)"
  then have "Some (fst row) \<in> set col" "snd row = count_list col (Some (fst row))"
    by (auto simp: set_value_counts [OF assms])
  then show "snd row = count_list col (Some (fst row))" and "0 < snd row"
    by (simp_all add: count_list_0_iff zero_less_iff_neq_zero)
qed

subsection \<open>Group sizes\<close>

lemma set_groupby_size:
  "set (groupby_size col) = {(v, n). Some v \<in> set col \<and> n = count_list col (Some v)}"
  by (simp add: groupby_size_def set_count_table)

lemma keys_groupby_size: "set (map fst (groupby_size col)) = set (notna_values col)"
proof -
  have "fst ` set (groupby_size col) = {v. Some v \<in> set col}"
    unfolding set_groupby_size by (auto simp: image_iff)
  then show ?thesis by (simp add: set_notna_values)
qed

lemma sorted_keys_groupby_size: "sorted (map fst (groupby_size col))"
  by (simp add: groupby_size_def)

lemma distinct_keys_groupby_size: "distinct (map fst (groupby_size col))"
proof -
  have "mset (map fst (groupby_size col)) = mset (map fst (count_table (notna_values col)))"
    by (simp add: groupby_size_def)
  then have "mset (map fst (groupby_size col)) = mset (unique (notna_values col))"
    by (simp only: keys_count_table)
  then show ?thesis
    by (metis distinct_unique mset_eq_imp_distinct_iff)
qed

lemma sum_groupby_size:
  "sum_list (map snd (groupby_size col)) + length (filter (\<lambda>v. v = None) col) = length col"
  by (simp add: groupby_size_def sum_list_sort_key sum_count_table length_notna_values)


lemma set_weapon_sorted:
  "sorts_by_count srt \<Longrightarrow>
   set (weapon_sorted srt dff)
     = {(v, n). Some v \<in> set (map weapon dff) \<and> n = count_list (map weapon dff) (Some v)}"
  by (simp add: weapon_sorted_def weapon_df_def set_srt set_groupby_size)

lemma count_list_column:
  "count_list (map f xs) v = length (filter (\<lambda>x. f x = v) xs)"
  by (induction xs) auto

lemma notna_count:
  "length (filter (\<lambda>row. f row \<noteq> None) dff) + length (filter (\<lambda>row. f row = None) dff)
     = length dff"
  by (induction dff) auto

lemma sum_weapon_sorted:
  assumes "sorts_by_count srt"
  shows "sum_list (map snd (weapon_sorted srt dff))
           = length (filter (\<lambda>row. weapon row \<noteq> None) dff)"
proof -
  have "sum_list (map snd (weapon_sorted srt dff))
          + length (filter (\<lambda>row. weapon row = None) dff) = length dff"
    using sum_groupby_size [of "map weapon dff"]
    by (simp add: weapon_sorted_def weapon_df_def sum_srt [OF assms] comp_def)
  with notna_count [of weapon dff] show ?thesis by linarith
qed

lemma notna_values_Some: "notna_values (map (\<lambda>x. Some (f x)) xs) = map f xs"
  by (induction xs) auto

lemma set_dff_of: "set (dff_of df c) \<subseteq> set df"
  by (auto simp: dff_of_def)

lemma hour_counts_rows:
  "hour_counts (map date_time dff)
     = groupby_size (map (\<lambda>r. Some (ts_hour (date_time r))) dff)"
  by (simp add: hour_counts_def comp_def)

lemma set_hour_counts:
  "set (hour_counts (map date_time dff))
     = {(h, n). h \<in> (\<lambda>row. ts_hour (date_time row)) ` set dff
          \<and> n = length (filter (\<lambda>x. ts_hour (date_time x) = h) dff)}"
  by (auto simp: hour_counts_rows set_groupby_size count_list_column)

lemma keys_hour_counts:
  "set (map fst (hour_counts (map date_time dff))) = (\<lambda>row. ts_hour (date_time row)) ` set dff"
  using keys_groupby_size [of "map (\<lambda>r. Some (ts_hour (date_time r))) dff"]
  by (simp add: hour_counts_rows notna_values_Some)

subsection \<open>The text of a number determines the number\<close>









subsection \<open>Months in the order of the categories\<close>








subsection \<open>The most frequent crime\<close>

lemma astype_str_dropna: "map astype_str (dropna col) = dropna col"
  by (induction col rule: notna_values.induct) (simp_all add: dropna_def)

lemma notna_values_dropna: "notna_values (dropna col) = notna_values col"
  by (induction col rule: notna_values.induct) (simp_all add: dropna_def)

lemma vc_of_eq: "vc_of srt dff = value_counts srt (map crime_type dff)"
  by (simp add: vc_of_def value_counts_def astype_str_dropna notna_values_dropna)

lemma notna_any_iff: "notna_any (map f dff) \<longleftrightarrow> \<not> (\<forall>row \<in> set dff. f row = None)"
  by (auto simp: notna_any_def list_ex_iff)

lemma vc_of_nonempty:
  assumes "sorts_by_count srt" and "notna_any (map crime_type dff)"
  shows "vc_of srt dff \<noteq> []"
proof -
  from assms(2) obtain r where r: "r \<in> set dff" "crime_type r \<noteq> None"
    by (auto simp: notna_any_def list_ex_iff)
  then obtain y where y: "crime_type r = Some y" by blast
  with r(1) have "Some y \<in> set (map crime_type dff)"
    by (metis image_eqI set_map)
  then have "(y, count_list (map crime_type dff) (Some y)) \<in> set (vc_of srt dff)"
    by (simp add: vc_of_eq set_value_counts [OF assms(1)])
  then show ?thesis by auto
qed

lemma first_max_head: "\<forall>x \<in> set rs. snd x \<le> snd b \<Longrightarrow> first_max b rs = b"
  by (induction rs) auto

lemma fold_max_head: "\<forall>x \<in> set xs. x \<le> m \<Longrightarrow> fold max xs (m::nat) = m"
  by (induction xs) (auto simp: max_absorb2)

lemma top_of_descending:
  assumes "sorted_wrt (\<lambda>a b. snd b \<le> snd a) (r # rs)"
  shows "idxmax (r # rs) = Inr (fst r)" and "series_max (r # rs) = Some (snd r)"
proof -
  from assms have le: "\<forall>x \<in> set rs. snd x \<le> snd r" by simp
  then show "idxmax (r # rs) = Inr (fst r)"
    by (simp add: first_max_head)
  from le show "series_max (r # rs) = Some (snd r)"
    by (simp add: fold_max_head)
qed

lemma freq_of_returns:
  assumes "sorts_by_count srt"
  shows "\<exists>s. freq_of srt dff = Inr s"
proof (cases "dff \<noteq> [] \<and> notna_any (map crime_type dff)")
  case True
  then obtain r rs where "vc_of srt dff = r # rs"
    using vc_of_nonempty [OF assms, of dff] by (cases "vc_of srt dff") auto
  with True show ?thesis by (simp add: freq_of_def)
next
  case False
  then show ?thesis by (auto simp: freq_of_def)
qed

lemma freq_of_na:
  assumes "sorts_by_count srt"
  shows "freq_of srt dff = Inr ''N/A''
           \<longleftrightarrow> dff = [] \<or> (\<forall>row \<in> set dff. crime_type row = None)"
proof (cases "dff \<noteq> [] \<and> notna_any (map crime_type dff)")
  case True
  then obtain r rs where vc: "vc_of srt dff = r # rs"
    using vc_of_nonempty [OF assms, of dff] by (cases "vc_of srt dff") auto
  have "l @ '' ('' @ t @ '' crimes)'' \<noteq> ''N/A''" for l t :: string
  proof
    assume "l @ '' ('' @ t @ '' crimes)'' = ''N/A''"
    then have "last (l @ '' ('' @ t @ '' crimes)'') = last ''N/A''"
      by (rule arg_cong)
    then show False by simp
  qed
  with True vc show ?thesis
    by (simp add: freq_of_def notna_any_iff)
next
  case False
  then show ?thesis
    by (auto simp: freq_of_def notna_any_iff)
qed

lemma freq_of_top:
  assumes "sorts_by_count srt"
    and "dff \<noteq> []" and "\<not> (\<forall>row \<in> set dff. crime_type row = None)"
  shows "\<exists>l n rest. freq_of srt dff = Inr (l @ '' ('' @ str_nat n @ '' crimes)'')
           \<and> Some l \<in> set (map crime_type dff)
           \<and> n = count_list (map crime_type dff) (Some l)
           \<and> (\<forall>v. count_list (map crime_type dff) (Some v) \<le> n)
           \<and> value_counts srt (map crime_type dff) = (l, n) # rest"
proof -
  let ?col = "map crime_type dff"
  from assms(2,3) have cond: "dff \<noteq> [] \<and> notna_any ?col"
    by (simp add: notna_any_iff)
  then obtain r rs where vc: "vc_of srt dff = r # rs"
    using vc_of_nonempty [OF assms(1), of dff] by (cases "vc_of srt dff") auto
  then have tbl: "value_counts srt ?col = r # rs"
    by (simp add: vc_of_eq)
  have desc: "sorted_wrt (\<lambda>a b. snd b \<le> snd a) (r # rs)"
    using descending_value_counts [OF assms(1), of ?col] by (simp only: tbl)
  have freq: "freq_of srt dff = Inr (fst r @ '' ('' @ str_nat (snd r) @ '' crimes)'')"
    using cond vc top_of_descending [OF desc] by (simp add: freq_of_def)
  have "r \<in> set (value_counts srt ?col)"
    by (simp add: tbl)
  then have r: "Some (fst r) \<in> set ?col" "snd r = count_list ?col (Some (fst r))"
    by (auto simp: set_value_counts [OF assms(1)])
  have top: "count_list ?col (Some v) \<le> snd r" for v
  proof (cases "Some v \<in> set ?col")
    case True
    then have "(v, count_list ?col (Some v)) \<in> set (value_counts srt ?col)"
      by (simp add: set_value_counts [OF assms(1)])
    then have "(v, count_list ?col (Some v)) = r \<or> (v, count_list ?col (Some v)) \<in> set rs"
      by (simp add: tbl)
    with desc show ?thesis by auto
  next
    case False
    then have "count_list ?col (Some v) = 0"
      by (simp only: count_list_0_iff not_False_eq_True)
    then show ?thesis by simp
  qed
  have head: "value_counts srt ?col = (fst r, snd r) # rs"
    by (simp add: tbl)
  from freq r top head show ?thesis
    by (intro exI [of _ "fst r"] exI [of _ "snd r"] exI [of _ rs] conjI allI) simp_all
qed

subsection \<open>The callback returns on a table with rows\<close>

lemma update_no_rows: "update srt [] c = Inl AttributeError"
  by (simp add: update_def hourly_df_def dt_accessor_def)

lemma update_fields:
  assumes "sorts_by_count srt" and "df \<noteq> []"
  shows "\<exists>r. update srt df c = Inr r
     \<and> fig_case r = case_df srt (dff_of df c)
     \<and> fig_race r = race_df srt (dff_of df c)
     \<and> fig_gender r = gender_df srt (dff_of df c)
     \<and> fig_hour r = hour_counts (map date_time (dff_of df c))
     \<and> fig_weap r = weapon_sorted srt (dff_of df c)
     \<and> fig_month r = month_sorted (month_counts (map date_time (dff_of df c)))
     \<and> fig_map r = map map_row (dff_of df c)
     \<and> total_crimes r = fmt_thousands (length (dff_of df c))
     \<and> freq_of srt (dff_of df c) = Inr (freq_crime r)"
proof -
  obtain s where "freq_of srt (dff_of df c) = Inr s"
    using freq_of_returns [OF assms(1)] by blast
  with assms(2) show ?thesis
    by (simp add: update_def Let_def hourly_df_def month_df_def dt_accessor_def)
qed

subsection \<open>A city outside the list\<close>

lemma set_cities: "set (cities df) = insert ''All California'' (city ` set df)"
  by (simp add: cities_def set_unique)

lemma dff_of_unknown: "c \<notin> set (cities df) \<Longrightarrow> dff_of df c = []"
  by (auto simp: set_cities dff_of_def filter_empty_conv)

lemma update_empty_selection:
  assumes "sorts_by_count srt" and "df \<noteq> []" and "dff_of df c = []"
  shows "update srt df c
           = Inr \<lparr>fig_case = [], fig_race = [], fig_gender = [], fig_hour = [],
                  fig_weap = [], fig_month = [], fig_map = [],
                  total_crimes = ''0'', freq_crime = ''N/A''\<rparr>"
proof -
  have "fmt_thousands 0 = ''0''" by code_simp
  with assms(2,3) srt_Nil [OF assms(1)] show ?thesis
    by (simp add: update_def freq_of_def case_df_def race_df_def gender_df_def hourly_df_def
        hour_counts_def weapon_sorted_def weapon_df_def month_sorted_def month_df_def
        month_counts_def dt_accessor_def value_counts_def groupby_size_def count_table_def)
qed

section \<open>The claims\<close>

text \<open>
  The theorems are about a table with at least one row and hold for every sort by count
  that the library may use.
\<close>



text \<open>
  C2.  The claim asks for a failure with \<^verbatim>\<open>UnknownJurisdictionError\<close> when the city is not
  in the list of the dropdown.  The callback has no such check and raises no such error:
  for the sample table and a city that is not in its list it returns the outputs of an
  empty selection.
\<close>

theorem unknown_city_returns_counterexample:
  "''Nonexistent'' \<notin> set (cities sample_df)
   \<and> update (sort_key snd) sample_df ''Nonexistent''
       = Inr \<lparr>fig_case = [], fig_race = [], fig_gender = [], fig_hour = [],
              fig_weap = [], fig_month = [], fig_map = [],
              total_crimes = ''0'', freq_crime = ''N/A''\<rparr>"
  by code_simp

text \<open>
  C2, as the callback behaves.  For every table with rows, a city that is not in the list
  of the dropdown selects no row, and the callback returns without error the outputs of
  the empty selection: empty tables, an empty map, the total 0 and \<^verbatim>\<open>N/A\<close> as the most
  frequent crime.
\<close>

theorem unknown_city_gives_empty_outputs:
  assumes "sorts_by_count srt" and "df \<noteq> []" and "c \<notin> set (cities df)"
  shows "dff_of df c = []
   \<and> update srt df c = Inr \<lparr>fig_case = [], fig_race = [], fig_gender = [], fig_hour = [],
                            fig_weap = [], fig_month = [], fig_map = [],
                            total_crimes = ''0'', freq_crime = ''N/A''\<rparr>"
proof -
  from assms(3) have e: "dff_of df c = []"
    by (rule dff_of_unknown)
  with update_empty_selection [OF assms(1,2) e] show ?thesis
    by simp
qed

theorem unknown_city_gives_empty_outputs_witness:
  "cities [row2, row5] = [''All California'', ''Fresno'']
   \<and> update (sort_key snd) [row2, row5] ''Oakland''
       = Inr \<lparr>fig_case = [], fig_race = [], fig_gender = [], fig_hour = [],
              fig_weap = [], fig_month = [], fig_map = [],
              total_crimes = ''0'', freq_crime = ''N/A''\<rparr>"
proof -
  have c: "cities [row2, row5] = [''All California'', ''Fresno'']"
    by code_simp
  then have out: "''Oakland'' \<notin> set (cities [row2, row5])"
    by simp
  have ne: "[row2, row5] \<noteq> []"
    by simp
  from unknown_city_gives_empty_outputs [OF sorts_by_count_sort_key ne out] c show ?thesis
    by simp
qed



text \<open>
  C4.  The claim fixes the order of labels of equal count as the order of their first
  appearance.  The callback calls \<^verbatim>\<open>value_counts()\<close>, whose sort is not stable: with a sort
  by count that returns equal counts in reverse, the gender table of the sample lists
  \<^verbatim>\<open>Female\<close> before \<^verbatim>\<open>Male\<close>, both with two rows, although \<^verbatim>\<open>Male\<close> appears first; with
  the stable sort it lists \<^verbatim>\<open>Male\<close> first.
\<close>

theorem first_appearance_ties_counterexample:
  "sorts_by_count (reversing_sort :: (string \<times> nat) list \<Rightarrow> (string \<times> nat) list)
   \<and> unique (notna_values (map gender sample_df)) = [''Male'', ''Female'']
   \<and> value_counts reversing_sort (map gender sample_df) = [(''Female'', 2), (''Male'', 2)]
   \<and> value_counts (sort_key snd) (map gender sample_df) = [(''Male'', 2), (''Female'', 2)]
   \<and> map_sum id fig_gender (update reversing_sort sample_df ''All California'')
       = Inr [(''Female'', 2), (''Male'', 2)]"
proof -
  have "unique (notna_values (map gender sample_df)) = [''Male'', ''Female'']"
    and "value_counts reversing_sort (map gender sample_df) = [(''Female'', 2), (''Male'', 2)]"
    and "value_counts (sort_key snd) (map gender sample_df) = [(''Male'', 2), (''Female'', 2)]"
    and "map_sum id fig_gender (update reversing_sort sample_df ''All California'')
           = Inr [(''Female'', 2), (''Male'', 2)]"
    by code_simp+
  then show ?thesis
    using sorts_by_count_reversing_sort by blast
qed

text \<open>
  C4, as the callback behaves.  On a table with rows, the three tables that the callback
  counts with \<^verbatim>\<open>value_counts\<close> are frequency tables of their columns over the selected
  rows: empty cells contribute no row, every other value has one row with its number of
  cells, and the rows are in order of descending count.  The order of rows of equal
  count is the one the sort of the library gives and is not fixed.
\<close>

theorem categorical_counts_are_frequency_tables:
  assumes "sorts_by_count srt" and "df \<noteq> []"
  shows "frequency_table col (value_counts srt col)
   \<and> (\<exists>r. update srt df c = Inr r
        \<and> fig_case r = value_counts srt (map case_closed (dff_of df c))
        \<and> fig_race r = value_counts srt (map race_ethnicity (dff_of df c))
        \<and> fig_gender r = value_counts srt (map gender (dff_of df c))
        \<and> frequency_table (map case_closed (dff_of df c)) (fig_case r)
        \<and> frequency_table (map race_ethnicity (dff_of df c)) (fig_race r)
        \<and> frequency_table (map gender (dff_of df c)) (fig_gender r))"
proof -
  obtain r where r: "update srt df c = Inr r"
      "fig_case r = case_df srt (dff_of df c)"
      "fig_race r = race_df srt (dff_of df c)"
      "fig_gender r = gender_df srt (dff_of df c)"
    using update_fields [OF assms, of c] by blast
  then have "update srt df c = Inr r
        \<and> fig_case r = value_counts srt (map case_closed (dff_of df c))
        \<and> fig_race r = value_counts srt (map race_ethnicity (dff_of df c))
        \<and> fig_gender r = value_counts srt (map gender (dff_of df c))
        \<and> frequency_table (map case_closed (dff_of df c)) (fig_case r)
        \<and> frequency_table (map race_ethnicity (dff_of df c)) (fig_race r)
        \<and> frequency_table (map gender (dff_of df c)) (fig_gender r)"
    by (simp add: case_df_def race_df_def gender_df_def
        frequency_table_value_counts [OF assms(1)])
  then show ?thesis
    using frequency_table_value_counts [OF assms(1), of col] by blast
qed

theorem categorical_counts_are_frequency_tables_witness:
  "frequency_table (map race_ethnicity sample_df) [(''White'', 2), (''Black'', 1), (''Asian'', 1)]
   \<and> (\<exists>r. update reversing_sort sample_df ''All California'' = Inr r
        \<and> fig_case r = [(''No'', 3), (''Yes'', 1)]
        \<and> fig_race r = [(''White'', 2), (''Black'', 1), (''Asian'', 1)]
        \<and> fig_gender r = [(''Female'', 2), (''Male'', 2)])"
proof -
  have ne: "sample_df \<noteq> []"
    by (simp add: sample_df_def)
  have d: "dff_of sample_df ''All California'' = sample_df"
    by code_simp
  have e: "value_counts reversing_sort (map case_closed sample_df) = [(''No'', 3), (''Yes'', 1)]"
      "value_counts reversing_sort (map race_ethnicity sample_df)
         = [(''White'', 2), (''Black'', 1), (''Asian'', 1)]"
      "value_counts reversing_sort (map gender sample_df) = [(''Female'', 2), (''Male'', 2)]"
    by code_simp+
  note inst = categorical_counts_are_frequency_tables
               [OF sorts_by_count_reversing_sort ne,
                of "map race_ethnicity sample_df" "''All California''"]
  from inst have "frequency_table (map race_ethnicity sample_df)
                    (value_counts reversing_sort (map race_ethnicity sample_df))"
    by (rule conjunct1)
  then have first: "frequency_table (map race_ethnicity sample_df)
                      [(''White'', 2), (''Black'', 1), (''Asian'', 1)]"
    by (simp only: e)
  from inst obtain r where "update reversing_sort sample_df ''All California'' = Inr r"
      "fig_case r = value_counts reversing_sort (map case_closed (dff_of sample_df ''All California''))"
      "fig_race r = value_counts reversing_sort (map race_ethnicity (dff_of sample_df ''All California''))"
      "fig_gender r = value_counts reversing_sort (map gender (dff_of sample_df ''All California''))"
    by blast
  then have "update reversing_sort sample_df ''All California'' = Inr r
        \<and> fig_case r = [(''No'', 3), (''Yes'', 1)]
        \<and> fig_race r = [(''White'', 2), (''Black'', 1), (''Asian'', 1)]
        \<and> fig_gender r = [(''Female'', 2), (''Male'', 2)]"
    by (simp only: d e)
  with first show ?thesis by blast
qed





text \<open>
  C7.  On a table with rows, the rows of the hourly chart are one per hour that occurs
  among the selected rows, in ascending order of the hour, each with the number of rows
  of that hour, which is positive: an hour without rows has no entry.  The hours are
  those of the timestamps, hence below 24 when the timestamps are.
\<close>

theorem hourly_counts_sorted_and_sparse:
  assumes "sorts_by_count srt" and "df \<noteq> []"
  shows "\<exists>r. update srt df c = Inr r
     \<and> sorted (map fst (fig_hour r)) \<and> distinct (map fst (fig_hour r))
     \<and> set (map fst (fig_hour r)) = (\<lambda>row. ts_hour (date_time row)) ` set (dff_of df c)
     \<and> (\<forall>row \<in> set (fig_hour r).
           snd row = length (filter (\<lambda>x. ts_hour (date_time x) = fst row) (dff_of df c))
           \<and> 0 < snd row)
     \<and> ((\<forall>row \<in> set df. ts_hour (date_time row) < 24)
           \<longrightarrow> (\<forall>row \<in> set (fig_hour r). fst row < 24))"
proof -
  obtain r where r: "update srt df c = Inr r"
      "fig_hour r = hour_counts (map date_time (dff_of df c))"
    using update_fields [OF assms, of c] by blast
  let ?dff = "dff_of df c"
  let ?hour = "\<lambda>row. ts_hour (date_time row)"
  have 1: "sorted (map fst (fig_hour r))" "distinct (map fst (fig_hour r))"
    by (simp_all add: r(2) hour_counts_rows sorted_keys_groupby_size distinct_keys_groupby_size)
  have 2: "set (map fst (fig_hour r)) = ?hour ` set ?dff"
    by (simp only: r(2) keys_hour_counts)
  have 3: "snd row = length (filter (\<lambda>x. ?hour x = fst row) ?dff) \<and> 0 < snd row"
    if "row \<in> set (fig_hour r)" for row
  proof -
    from that have h: "fst row \<in> ?hour ` set ?dff"
      and n: "snd row = length (filter (\<lambda>x. ?hour x = fst row) ?dff)"
      by (auto simp: r(2) set_hour_counts)
    from h obtain x where "x \<in> set ?dff" "?hour x = fst row" by auto
    then have "filter (\<lambda>x. ?hour x = fst row) ?dff \<noteq> []"
      by (auto simp: filter_empty_conv)
    with n show ?thesis by simp
  qed
  have 4: "fst row < 24"
    if "\<forall>row \<in> set df. ?hour row < 24" "row \<in> set (fig_hour r)" for row
  proof -
    from that(2) have "fst row \<in> set (map fst (fig_hour r))" by simp
    then have "fst row \<in> ?hour ` set ?dff" by (simp only: 2)
    then show ?thesis using that(1) set_dff_of [of df c] by auto
  qed
  from r(1) 1 2 3 4 show ?thesis by blast
qed

theorem hourly_counts_sorted_and_sparse_witness:
  "list_all (\<lambda>row. ts_hour (date_time row) < 24) sample_df
   \<and> (\<exists>r. update (sort_key snd) sample_df ''All California'' = Inr r
        \<and> map fst (fig_hour r) = [2, 13, 22]
        \<and> list_all (\<lambda>row. fst row < 24 \<and> 0 < snd row) (fig_hour r))"
proof -
  have ne: "sample_df \<noteq> []"
    by (simp add: sample_df_def)
  have h: "\<forall>row \<in> set sample_df. ts_hour (date_time row) < 24"
    by code_simp
  have e: "sorted_list_of_set ((\<lambda>row. ts_hour (date_time row)) ` set (dff_of sample_df ''All California''))
             = [2, 13, 22]"
    by code_simp
  from hourly_counts_sorted_and_sparse [OF sorts_by_count_sort_key ne, of "''All California''"] h
  obtain r where r: "update (sort_key snd) sample_df ''All California'' = Inr r"
      "sorted (map fst (fig_hour r))" "distinct (map fst (fig_hour r))"
      "set (map fst (fig_hour r))
         = (\<lambda>row. ts_hour (date_time row)) ` set (dff_of sample_df ''All California'')"
      "\<forall>row \<in> set (fig_hour r). 0 < snd row"
      "\<forall>row \<in> set (fig_hour r). fst row < 24"
    by blast
  from r(2,3,4) have "map fst (fig_hour r)
      = sorted_list_of_set ((\<lambda>row. ts_hour (date_time row)) ` set (dff_of sample_df ''All California''))"
    by (metis sorted_list_of_set.idem_if_sorted_distinct)
  with e have k: "map fst (fig_hour r) = [2, 13, 22]" by simp
  from r(5,6) have "list_all (\<lambda>row. fst row < 24 \<and> 0 < snd row) (fig_hour r)"
    by (simp add: list_all_iff)
  with r(1) k have "\<exists>r. update (sort_key snd) sample_df ''All California'' = Inr r
        \<and> map fst (fig_hour r) = [2, 13, 22]
        \<and> list_all (\<lambda>row. fst row < 24 \<and> 0 < snd row) (fig_hour r)"
    by (intro exI [of _ r] conjI)
  moreover from h have "list_all (\<lambda>row. ts_hour (date_time row) < 24) sample_df"
    by (simp add: list_all_iff)
  ultimately show ?thesis by (intro conjI)
qed

text \<open>
  C8.  The claim lets the first label encountered win among equally frequent crime types.
  The callback takes the first maximum of the table of \<^verbatim>\<open>value_counts()\<close>, whose sort is
  not stable: on two rows, \<^verbatim>\<open>Assault\<close> then \<^verbatim>\<open>Theft\<close>, with a sort by count that returns
  equal counts in reverse, it names \<^verbatim>\<open>Theft\<close>, which is neither the first encountered nor
  the first in the alphabet.
\<close>

theorem first_encountered_top_crime_counterexample:
  "sorts_by_count (reversing_sort :: (string \<times> nat) list \<Rightarrow> (string \<times> nat) list)
   \<and> map crime_type (dff_of [row3, row1] ''All California'') = [Some ''Assault'', Some ''Theft'']
   \<and> map_sum id freq_crime (update reversing_sort [row3, row1] ''All California'')
       = Inr ''Theft (1 crimes)''"
proof -
  have "map crime_type (dff_of [row3, row1] ''All California'') = [Some ''Assault'', Some ''Theft'']"
    and "map_sum id freq_crime (update reversing_sort [row3, row1] ''All California'')
           = Inr ''Theft (1 crimes)''"
    by code_simp+
  then show ?thesis
    using sorts_by_count_reversing_sort by blast
qed

text \<open>
  C8, as the callback behaves.  On a table with rows, the text of the most frequent
  crime is \<^verbatim>\<open>N/A\<close> exactly when no row is selected or no selected row has a crime type.
  Otherwise it names a crime type of a selected row together with its number of rows; no
  crime type has more rows, and among the crime types with that many rows it is the one
  that the table of \<^verbatim>\<open>value_counts()\<close> lists first, an order that the sort of the library
  decides.
\<close>

theorem headline_top_crime:
  assumes "sorts_by_count srt" and "df \<noteq> []"
  shows "\<exists>r. update srt df c = Inr r
     \<and> (freq_crime r = ''N/A''
          \<longleftrightarrow> dff_of df c = [] \<or> (\<forall>row \<in> set (dff_of df c). crime_type row = None))
     \<and> (\<not> (dff_of df c = [] \<or> (\<forall>row \<in> set (dff_of df c). crime_type row = None))
          \<longrightarrow> (\<exists>l n rest. freq_crime r = l @ '' ('' @ str_nat n @ '' crimes)''
                 \<and> Some l \<in> set (map crime_type (dff_of df c))
                 \<and> n = count_list (map crime_type (dff_of df c)) (Some l)
                 \<and> (\<forall>v. count_list (map crime_type (dff_of df c)) (Some v) \<le> n)
                 \<and> value_counts srt (map crime_type (dff_of df c)) = (l, n) # rest))"
proof -
  obtain r where r: "update srt df c = Inr r" "freq_of srt (dff_of df c) = Inr (freq_crime r)"
    using update_fields [OF assms, of c] by blast
  let ?dff = "dff_of df c"
  have na: "freq_crime r = ''N/A''
          \<longleftrightarrow> ?dff = [] \<or> (\<forall>row \<in> set ?dff. crime_type row = None)"
    using freq_of_na [OF assms(1), of ?dff] by (simp add: r(2))
  have top: "\<exists>l n rest. freq_crime r = l @ '' ('' @ str_nat n @ '' crimes)''
                 \<and> Some l \<in> set (map crime_type ?dff)
                 \<and> n = count_list (map crime_type ?dff) (Some l)
                 \<and> (\<forall>v. count_list (map crime_type ?dff) (Some v) \<le> n)
                 \<and> value_counts srt (map crime_type ?dff) = (l, n) # rest"
    if "\<not> (?dff = [] \<or> (\<forall>row \<in> set ?dff. crime_type row = None))"
  proof -
    from that have "?dff \<noteq> []" "\<not> (\<forall>row \<in> set ?dff. crime_type row = None)"
      by simp_all
    from freq_of_top [OF assms(1) this] show ?thesis
      by (simp only: r(2) sum.inject)
  qed
  from r(1) na top show ?thesis
    by (intro exI [of _ r] conjI impI)
qed

theorem headline_top_crime_witness:
  "dff_of [row1, row3] ''All California'' \<noteq> []
   \<and> map crime_type (dff_of [row1, row3] ''All California'') = [Some ''Theft'', Some ''Assault'']
   \<and> (\<exists>r. update (sort_key snd) [row1, row3] ''All California'' = Inr r
        \<and> freq_crime r \<noteq> ''N/A'' \<and> freq_crime r = ''Theft (1 crimes)'')"
proof -
  let ?dff = "dff_of [row1, row3] ''All California''"
  have ne0: "[row1, row3] \<noteq> []"
    by simp
  have col: "map crime_type ?dff = [Some ''Theft'', Some ''Assault'']"
    by code_simp
  then have ne: "?dff \<noteq> []" by auto
  have some: "\<not> (?dff = [] \<or> (\<forall>row \<in> set ?dff. crime_type row = None))"
  proof -
    have "Some ''Theft'' \<in> set (map crime_type ?dff)" by (simp only: col) simp
    then obtain x where "x \<in> set ?dff" "crime_type x = Some ''Theft''" by auto
    then have "\<not> (\<forall>row \<in> set ?dff. crime_type row = None)" by force
    with ne show ?thesis by simp
  qed
  have vc: "value_counts (sort_key snd) [Some ''Theft'', Some ''Assault'']
              = [(''Theft'', 1), (''Assault'', 1)]"
    by code_simp
  from headline_top_crime [OF sorts_by_count_sort_key ne0, of "''All California''"] some
  obtain r l n rest where r: "update (sort_key snd) [row1, row3] ''All California'' = Inr r"
      "freq_crime r \<noteq> ''N/A''"
      "freq_crime r = l @ '' ('' @ str_nat n @ '' crimes)''"
      "value_counts (sort_key snd) (map crime_type ?dff) = (l, n) # rest"
    by blast
  from r(4) have "(l, n) # rest = [(''Theft'', 1), (''Assault'', 1)]"
    by (simp only: col vc)
  then have l: "l = ''Theft''" and n: "n = 1"
    by simp_all
  have "str_nat 1 = ''1''" by code_simp
  with r(3) l n have "freq_crime r = ''Theft (1 crimes)''" by simp
  with r(1,2) ne col show ?thesis by blast
qed

text \<open>
  C9.  On a table with rows, the map receives one point per selected row, in row order,
  with the coordinates, the city and the four hover columns of the row.  Rows without a
  coordinate are passed on like the others, so the number of points is the number shown
  as the total.
\<close>

theorem map_points_pass_through:
  assumes "sorts_by_count srt" and "df \<noteq> []"
  shows "\<exists>r. update srt df c = Inr r
     \<and> length (fig_map r) = length (dff_of df c)
     \<and> total_crimes r = fmt_thousands (length (fig_map r))
     \<and> (\<forall>i < length (dff_of df c).
           lat (fig_map r ! i) = latitude (dff_of df c ! i)
         \<and> lon (fig_map r ! i) = longitude (dff_of df c ! i)
         \<and> color (fig_map r ! i) = city (dff_of df c ! i)
         \<and> hover_crime_type (fig_map r ! i) = crime_type (dff_of df c ! i)
         \<and> hover_weapon (fig_map r ! i) = weapon (dff_of df c ! i)
         \<and> hover_gender (fig_map r ! i) = gender (dff_of df c ! i)
         \<and> hover_case_closed (fig_map r ! i) = case_closed (dff_of df c ! i))
     \<and> length (filter (\<lambda>p. lat p = None \<or> lon p = None) (fig_map r))
         = length (filter (\<lambda>row. latitude row = None \<or> longitude row = None) (dff_of df c))"
proof -
  obtain r where r: "update srt df c = Inr r" "fig_map r = map map_row (dff_of df c)"
      "total_crimes r = fmt_thousands (length (dff_of df c))"
    using update_fields [OF assms, of c] by blast
  have "length (filter (\<lambda>p. lat p = None \<or> lon p = None) (map map_row dff))
         = length (filter (\<lambda>row. latitude row = None \<or> longitude row = None) dff)" for dff
    by (induction dff) (simp_all add: map_row_def)
  with r show ?thesis
    by (intro exI [of _ r]) (simp add: map_row_def)
qed

theorem map_points_pass_through_witness:
  "\<exists>r. update (sort_key snd) sample_df ''Fresno'' = Inr r
     \<and> length (fig_map r) = 2
     \<and> (0::nat) < length (dff_of sample_df ''Fresno'')
     \<and> lat (fig_map r ! 0) = None \<and> lon (fig_map r ! 0) = None
     \<and> color (fig_map r ! 0) = ''Fresno''
     \<and> total_crimes r = ''2''"
proof -
  have ne: "sample_df \<noteq> []"
    by (simp add: sample_df_def)
  have e: "length (dff_of sample_df ''Fresno'') = 2"
      "latitude (dff_of sample_df ''Fresno'' ! 0) = None"
      "longitude (dff_of sample_df ''Fresno'' ! 0) = None"
      "city (dff_of sample_df ''Fresno'' ! 0) = ''Fresno''"
      "fmt_thousands 2 = ''2''"
    by code_simp+
  from map_points_pass_through [OF sorts_by_count_sort_key ne, of "''Fresno''"]
  obtain r where r: "update (sort_key snd) sample_df ''Fresno'' = Inr r"
      "length (fig_map r) = length (dff_of sample_df ''Fresno'')"
      "total_crimes r = fmt_thousands (length (fig_map r))"
      "\<forall>i < length (dff_of sample_df ''Fresno'').
           lat (fig_map r ! i) = latitude (dff_of sample_df ''Fresno'' ! i)
         \<and> lon (fig_map r ! i) = longitude (dff_of sample_df ''Fresno'' ! i)
         \<and> color (fig_map r ! i) = city (dff_of sample_df ''Fresno'' ! i)"
    by blast
  from e(1) have "0 < length (dff_of sample_df ''Fresno'')" by simp
  with r(4) have "lat (fig_map r ! 0) = latitude (dff_of sample_df ''Fresno'' ! 0)
         \<and> lon (fig_map r ! 0) = longitude (dff_of sample_df ''Fresno'' ! 0)
         \<and> color (fig_map r ! 0) = city (dff_of sample_df ''Fresno'' ! 0)"
    by blast
  with r(1,2,3) e show ?thesis by simp
qed

text \<open>
  C10.  On a table with rows, the rows of the weapons chart come from the rows with a
  weapon only: every entry is the weapon of a selected row with its number of rows, every
  weapon that occurs has an entry, and the counts add up to the number of selected rows
  with a weapon.  That number is at most the total, and there are tables for which it is
  smaller.
\<close>

theorem weapon_usage_skips_missing_weapons:
  assumes "sorts_by_count srt" and "df \<noteq> []"
  shows "(\<exists>r. update srt df c = Inr r
      \<and> (\<forall>row \<in> set (fig_weap r).
            Some (fst row) \<in> set (map weapon (dff_of df c))
            \<and> snd row = length (filter (\<lambda>x. weapon x = Some (fst row)) (dff_of df c)))
      \<and> set (map fst (fig_weap r)) = set (notna_values (map weapon (dff_of df c)))
      \<and> sum_list (map snd (fig_weap r))
           = length (filter (\<lambda>row. weapon row \<noteq> None) (dff_of df c))
      \<and> sum_list (map snd (fig_weap r)) \<le> length (dff_of df c)
      \<and> total_crimes r = fmt_thousands (length (dff_of df c)))
   \<and> (\<exists>df' c' r'. df' \<noteq> [] \<and> update srt df' c' = Inr r'
         \<and> sum_list (map snd (fig_weap r')) < length (dff_of df' c'))"
proof -
  obtain r where r: "update srt df c = Inr r" "fig_weap r = weapon_sorted srt (dff_of df c)"
      "total_crimes r = fmt_thousands (length (dff_of df c))"
    using update_fields [OF assms, of c] by blast
  let ?dff = "dff_of df c"
  have rows: "Some (fst row) \<in> set (map weapon ?dff)
              \<and> snd row = length (filter (\<lambda>x. weapon x = Some (fst row)) ?dff)"
    if "row \<in> set (fig_weap r)" for row
  proof -
    from that have "Some (fst row) \<in> set (map weapon ?dff)"
        "snd row = count_list (map weapon ?dff) (Some (fst row))"
      by (auto simp: r(2) set_weapon_sorted [OF assms(1)])
    then show ?thesis by (simp add: count_list_column)
  qed
  have keys: "set (map fst (fig_weap r)) = set (notna_values (map weapon ?dff))"
    using keys_groupby_size [of "map weapon ?dff"]
    by (simp add: r(2) weapon_sorted_def weapon_df_def set_srt [OF assms(1)])
  have total: "sum_list (map snd (fig_weap r)) = length (filter (\<lambda>row. weapon row \<noteq> None) ?dff)"
    by (simp only: r(2) sum_weapon_sorted [OF assms(1)])
  have "length (filter (\<lambda>row. weapon row \<noteq> None) ?dff) \<le> length ?dff"
    by (rule length_filter_le)
  with total have le: "sum_list (map snd (fig_weap r)) \<le> length ?dff" by simp
  have ne: "sample_df \<noteq> []"
    by (simp add: sample_df_def)
  obtain r' where r': "update srt sample_df ''Fresno'' = Inr r'"
      "fig_weap r' = weapon_sorted srt (dff_of sample_df ''Fresno'')"
    using update_fields [OF assms(1) ne, of "''Fresno''"] by blast
  have "length (filter (\<lambda>row. weapon row \<noteq> None) (dff_of sample_df ''Fresno'')) = 1"
    and "length (dff_of sample_df ''Fresno'') = 2"
    by code_simp+
  with r' ne have "sample_df \<noteq> [] \<and> update srt sample_df ''Fresno'' = Inr r'
      \<and> sum_list (map snd (fig_weap r')) < length (dff_of sample_df ''Fresno'')"
    by (simp add: sum_weapon_sorted [OF assms(1)])
  then have "\<exists>df' c' r'. df' \<noteq> [] \<and> update srt df' c' = Inr r'
         \<and> sum_list (map snd (fig_weap r')) < length (dff_of df' c')"
    by blast
  with r(1,3) rows keys total le show ?thesis
    by blast
qed

theorem weapon_usage_skips_missing_weapons_witness:
  "\<exists>r. update (sort_key snd) sample_df ''Fresno'' = Inr r
     \<and> length (filter (\<lambda>row. weapon row \<noteq> None) (dff_of sample_df ''Fresno'')) = 1
     \<and> sum_list (map snd (fig_weap r)) = 1
     \<and> total_crimes r = ''2''"
proof -
  have ne: "sample_df \<noteq> []"
    by (simp add: sample_df_def)
  have "length (filter (\<lambda>row. weapon row \<noteq> None) (dff_of sample_df ''Fresno'')) = 1"
    and "fmt_thousands (length (dff_of sample_df ''Fresno'')) = ''2''"
    by code_simp+
  with weapon_usage_skips_missing_weapons [OF sorts_by_count_sort_key ne, of "''Fresno''"]
  show ?thesis
    by (elim exE conjE, intro exI conjI) simp_all
qed

end
